theory Spec2Isabelle
  imports Main
begin

section \<open>Python values and the string operations the validator uses\<close>

text \<open>
  A Python \<open>str\<close> is modelled as a \<^typ>\<open>string\<close>: a list of characters with code
  points below 256. On these code points the classifications below are those of
  CPython 3: \<open>\d\<close> matches exactly \<open>0\<close>..\<open>9\<close>, \<open>str.strip()\<close> removes the code points
  9..13, 28..32, 133 and 160, and \<open>str.lower()\<close> adds 32 to \<open>A\<close>..\<open>Z\<close> and to
  192..222 except 215. Texts with code points from 256 on are outside the model.
\<close>

definition is_digit :: "char \<Rightarrow> bool" where
  "is_digit c = (let n = (of_char c :: nat) in 48 \<le> n \<and> n \<le> 57)"

definition is_space :: "char \<Rightarrow> bool" where
  "is_space c =
     (let n = (of_char c :: nat)
      in (9 \<le> n \<and> n \<le> 13) \<or> (28 \<le> n \<and> n \<le> 32) \<or> n = 133 \<or> n = 160)"

definition lower_char :: "char \<Rightarrow> char" where
  "lower_char c =
     (let n = (of_char c :: nat)
      in if (65 \<le> n \<and> n \<le> 90) \<or> (192 \<le> n \<and> n \<le> 222 \<and> n \<noteq> 215)
         then char_of (n + 32) else c)"

text \<open>\<open>s.lower()\<close>\<close>

definition lower :: "string \<Rightarrow> string" where
  "lower s = map lower_char s"

text \<open>\<open>s.strip()\<close>: whitespace is removed at both ends.\<close>

definition strip :: "string \<Rightarrow> string" where
  "strip s = rev (dropWhile is_space (rev (dropWhile is_space s)))"

text \<open>\<open>s.split(sep)\<close> for a one-character separator: the result is never empty.\<close>

fun split :: "char \<Rightarrow> string \<Rightarrow> string list" where
  "split sep [] = [[]]"
| "split sep (c # cs) =
     (if c = sep then [] # split sep cs
      else (case split sep cs of
              [] \<Rightarrow> [[c]]
            | l # ls \<Rightarrow> (c # l) # ls))"

text \<open>\<open>s.startswith(p)\<close>, \<open>s.endswith(p)\<close> and \<open>sub in s\<close>.\<close>

definition startswith :: "string \<Rightarrow> string \<Rightarrow> bool" where
  "startswith s p = (take (length p) s = p)"

definition endswith :: "string \<Rightarrow> string \<Rightarrow> bool" where
  "endswith s p = (length p \<le> length s \<and> drop (length s - length p) s = p)"

fun contains :: "string \<Rightarrow> string \<Rightarrow> bool" where
  "contains sub [] = (sub = [])"
| "contains sub (c # cs) = (startswith (c # cs) sub \<or> contains sub cs)"

text \<open>
  \<open>re.findall(r'\d+', s)\<close>: the maximal runs of digits of \<open>s\<close>, from left to right.
  The first argument is the run being read.
\<close>

fun digit_runs :: "string \<Rightarrow> string \<Rightarrow> string list" where
  "digit_runs run [] = (if run = [] then [] else [run])"
| "digit_runs run (c # cs) =
     (if is_digit c then digit_runs (run @ [c]) cs
      else if run = [] then digit_runs [] cs
      else run # digit_runs [] cs)"

definition findall_digits :: "string \<Rightarrow> string list" where
  "findall_digits s = digit_runs [] s"

text \<open>
  Exceptions are values: the class name and \<open>str(e)\<close>. A function that can raise returns
  \<open>exn + 'a\<close>, with \<open>Inl\<close> for the exception.
\<close>

datatype exn = Exn string string

definition bind_exn :: "exn + 'a \<Rightarrow> ('a \<Rightarrow> exn + 'b) \<Rightarrow> exn + 'b" where
  "bind_exn r f = (case r of Inl e \<Rightarrow> Inl e | Inr x \<Rightarrow> f x)"

text \<open>
  \<open>int(s)\<close> on a run of digits. \<open>int_of_digits\<close> is the decimal value of the run. CPython
  (3.11, and the security releases of 3.7 to 3.10) refuses a decimal string of more
  than \<open>sys.int_info.default_max_str_digits\<close> = 4300 digits, leading zeros counted, with
  a \<open>ValueError\<close>.
\<close>

definition digit_value :: "char \<Rightarrow> int" where
  "digit_value c = int (of_char c) - 48"

definition int_of_digits :: "string \<Rightarrow> int" where
  "int_of_digits s = foldl (\<lambda>a c. 10 * a + digit_value c) 0 s"

definition int_max_str_digits :: nat where
  "int_max_str_digits = 4300"

definition py_int :: "string \<Rightarrow> exn + int" where
  "py_int s =
     (if int_max_str_digits < length s
      then Inl (Exn ''ValueError'' ''Exceeds the limit (4300 digits) for integer string conversion'')
      else Inr (int_of_digits s))"

text \<open>\<open>str(n)\<close> for \<open>n \<ge> 0\<close>, and the format \<open>f"{val:03d}"\<close>: the sign counts in the width.\<close>

definition digit_char :: "nat \<Rightarrow> char" where
  "digit_char d = char_of (48 + d)"

fun decimal :: "nat \<Rightarrow> string" where
  "decimal n = (if n < 10 then [digit_char n] else decimal (n div 10) @ [digit_char (n mod 10)])"

declare decimal.simps [simp del]

definition zfill :: "nat \<Rightarrow> string \<Rightarrow> string" where
  "zfill w s = replicate (w - length s) (CHR ''0'') @ s"

definition format_03d :: "int \<Rightarrow> string" where
  "format_03d v =
     (if v < 0 then CHR ''-'' # zfill 2 (decimal (nat (- v))) else zfill 3 (decimal (nat v)))"

section \<open>The strict parse of the scoring reply\<close>

text \<open>
  \<open>CivicValidator._strict3score\<close>. \<open>score_of_run\<close> is the body of \<open>if numbers:\<close>, which
  raises when \<open>int\<close> does. Each \<open>for\<close> loop with its early \<open>return\<close> is a recursion
  over the lines that gives \<open>Inr (Some s)\<close> when it returns \<open>s\<close>, \<open>Inr None\<close> when the loop
  runs to its end, and \<open>Inl e\<close> when it raises. The function has no handler of its own.
\<close>

definition score_of_run :: "string \<Rightarrow> exn + string" where
  "score_of_run number =
     bind_exn (py_int number) (\<lambda>val. Inr (format_03d (max 0 (min 100 val))))"

fun score_loop :: "string list \<Rightarrow> exn + string option" where
  "score_loop [] = Inr None"
| "score_loop (line # lines) =
     (if contains ''score'' (lower line)
      then (case findall_digits line of
              [] \<Rightarrow> score_loop lines
            | number # _ \<Rightarrow> bind_exn (score_of_run number) (\<lambda>s. Inr (Some s)))
      else score_loop lines)"

fun number_loop :: "string list \<Rightarrow> exn + string option" where
  "number_loop [] = Inr None"
| "number_loop (line # lines) =
     (case findall_digits line of
        [] \<Rightarrow> number_loop lines
      | number # _ \<Rightarrow> bind_exn (score_of_run number) (\<lambda>s. Inr (Some s)))"

definition strict3score :: "string \<Rightarrow> exn + string" where
  "strict3score text =
     (let lines = split (CHR 0x0A) (strip text)
      in bind_exn (score_loop lines) (\<lambda>first.
           case first of
             Some s \<Rightarrow> Inr s
           | None \<Rightarrow>
               bind_exn (number_loop lines) (\<lambda>second.
                 case second of
                   Some s \<Rightarrow> Inr s
                 | None \<Rightarrow> Inr ''000'')))"

section \<open>The scoring request\<close>

text \<open>
  What \<open>response.json()\<close> can return. The pairs of a \<open>JObject\<close> are the items of the
  resulting \<open>dict\<close>, whose keys are strings and distinct. A float is \<open>m * 2 ^ e\<close>.
\<close>

datatype json =
    JNull
  | JBool bool
  | JInt int
  | JFloat int int
  | JString string
  | JArray "json list"
  | JObject "(string \<times> json) list"

text \<open>\<open>obj[key]\<close> for a string key and \<open>obj[i]\<close> for an integer index.\<close>

fun getitem_key :: "json \<Rightarrow> string \<Rightarrow> exn + json" where
  "getitem_key (JObject items) key =
     (case map_of items key of
        None \<Rightarrow> Inl (Exn ''KeyError'' key)
      | Some v \<Rightarrow> Inr v)"
| "getitem_key v key = Inl (Exn ''TypeError'' ''bad subscript'')"

text \<open>\<open>xs[i]\<close> on a sequence: an index below zero counts from the end.\<close>

definition py_index :: "'a list \<Rightarrow> int \<Rightarrow> exn + 'a" where
  "py_index xs i =
     (if 0 \<le> i \<and> i < int (length xs) then Inr (xs ! nat i)
      else if i < 0 \<and> - i \<le> int (length xs) then Inr (xs ! nat (int (length xs) + i))
      else Inl (Exn ''IndexError'' ''index out of range''))"

fun getitem_index :: "json \<Rightarrow> int \<Rightarrow> exn + json" where
  "getitem_index (JArray xs) i = py_index xs i"
| "getitem_index (JString s) i =
     (case py_index s i of Inl e \<Rightarrow> Inl e | Inr c \<Rightarrow> Inr (JString [c]))"
| "getitem_index (JObject items) i = Inl (Exn ''KeyError'' ''0'')"
| "getitem_index v i = Inl (Exn ''TypeError'' ''not subscriptable'')"

text \<open>
  The request that \<open>get_civic_score_strict3\<close> posts is determined by the API key, the
  caption and the description: the URL, the model name, the temperature, the system
  message and the prompt text around the caption and the description are constants of
  the source. The scoring service is a black box: \<open>svc n req\<close> is what \<open>requests.post\<close>
  gives for the request \<open>req\<close> when \<open>n\<close> requests were sent before it, either an exception
  of the transport or a response. The requests sent are kept in a log.
\<close>

record request =
  api_key :: "string option"
  image_caption :: string
  user_description :: string

record response =
  status_code :: int
  json_body :: "exn + json"

type_synonym service = "nat \<Rightarrow> request \<Rightarrow> exn + response"

definition post :: "service \<Rightarrow> request \<Rightarrow> request list \<Rightarrow> (exn + response) \<times> request list" where
  "post svc req sent = (svc (length sent) req, sent @ [req])"

text \<open>\<open>response.json()["choices"][0]["message"]["content"]\<close>\<close>

definition reply_content :: "response \<Rightarrow> exn + json" where
  "reply_content r =
     bind_exn (json_body r) (\<lambda>body.
     bind_exn (getitem_key body ''choices'') (\<lambda>choices.
     bind_exn (getitem_index choices 0) (\<lambda>choice.
     bind_exn (getitem_key choice ''message'') (\<lambda>message.
     getitem_key message ''content''))))"

text \<open>
  \<open>self._strict3score(text)\<close> on whatever the reply holds: only a \<open>str\<close> has \<open>strip\<close>.
\<close>

definition call_strict3score :: "json \<Rightarrow> exn + string" where
  "call_strict3score v =
     (case v of
        JString text \<Rightarrow> strict3score text
      | _ \<Rightarrow> Inl (Exn ''AttributeError'' ''strip''))"

text \<open>
  The body of the \<open>try\<close>: \<open>Inr (Some s)\<close> when it returns \<open>s\<close>, \<open>Inr None\<close> when it ends
  without returning (a status other than 200), \<open>Inl e\<close> when it raises.
\<close>

definition score_attempt :: "exn + response \<Rightarrow> exn + string option" where
  "score_attempt posted =
     bind_exn posted (\<lambda>response.
       if status_code response = 200
       then bind_exn (reply_content response) (\<lambda>text.
            bind_exn (call_strict3score text) (\<lambda>s. Inr (Some s)))
       else Inr None)"

definition get_civic_score_strict3 ::
  "service \<Rightarrow> string option \<Rightarrow> string \<Rightarrow> string \<Rightarrow> request list \<Rightarrow> string \<times> request list" where
  "get_civic_score_strict3 svc key caption description sent =
     (let req = \<lparr>api_key = key, image_caption = caption, user_description = description\<rparr>;
          (posted, sent') = post svc req sent
      in case score_attempt posted of
           Inr (Some s) \<Rightarrow> (s, sent')
         | Inr None \<Rightarrow> (''000'', sent')
         | Inl e \<Rightarrow> (''000'', sent'))"

section \<open>The image gate\<close>

definition ALLOWED_EXTENSIONS :: "string set" where
  "ALLOWED_EXTENSIONS = {''png'', ''jpg'', ''jpeg'', ''gif'', ''webp''}"

text \<open>\<open>s.rsplit(sep, 1)\<close>: one split, at the last separator.\<close>

definition rsplit1 :: "char \<Rightarrow> string \<Rightarrow> string list" where
  "rsplit1 sep s =
     (if sep \<in> set s
      then [rev (tl (dropWhile (\<lambda>c. c \<noteq> sep) (rev s))), rev (takeWhile (\<lambda>c. c \<noteq> sep) (rev s))]
      else [s])"

text \<open>\<open>file.filename\<close> is a \<open>str\<close> or \<open>None\<close>; \<open>not filename\<close> holds of \<open>None\<close> and of \<open>''\<close>.\<close>

definition allowed_file :: "string option \<Rightarrow> bool" where
  "allowed_file filename =
     (case filename of
        None \<Rightarrow> False
      | Some name \<Rightarrow>
          if name = [] then False
          else CHR ''.'' \<in> set name \<and> lower (rsplit1 (CHR ''.'') name ! 1) \<in> ALLOWED_EXTENSIONS)"

text \<open>
  An upload object. \<open>file_truthy\<close> is \<open>bool(file)\<close>, which the class of the object
  decides: the uploads that Flask hands over are werkzeug \<open>FileStorage\<close> objects, whose
  \<open>__bool__\<close> is \<open>bool(self.filename)\<close>; an object without \<open>__bool__\<close> and \<open>__len__\<close> is
  true. The image library is a black box: \<open>image_open\<close> is what \<open>Image.open(file)\<close> does
  on this content from position 0 (it raises, or gives an image of some width and
  height) and where it leaves the cursor; \<open>image_verify\<close> is the same for
  \<open>img.verify()\<close>. \<open>calls\<close> is the log of the calls made on the file, in their order:
  \<open>file.seek(pos)\<close>, \<open>Image.open(file)\<close> and \<open>img.verify()\<close>.
\<close>

datatype file_call = Seek nat | Open | Verify

record upload =
  file_truthy :: bool
  filename :: "string option"
  cursor :: nat
  calls :: "file_call list"
  image_open :: "(string + int \<times> int) \<times> nat"
  image_verify :: "(string + unit) \<times> nat"

text \<open>
  A step on the file either raises (\<open>Inl\<close> of \<open>str(e)\<close>) or returns, and leaves the file in
  a new state.
\<close>

type_synonym 'a fileop = "upload \<Rightarrow> (string + 'a) \<times> upload"

definition return :: "'a \<Rightarrow> 'a fileop" where
  "return x f = (Inr x, f)"

definition and_then :: "'a fileop \<Rightarrow> ('a \<Rightarrow> 'b fileop) \<Rightarrow> 'b fileop" where
  "and_then m k f = (case m f of (Inl e, f') \<Rightarrow> (Inl e, f') | (Inr x, f') \<Rightarrow> k x f')"

definition seek :: "nat \<Rightarrow> unit fileop" where
  "seek pos f = (Inr (), f\<lparr>cursor := pos, calls := calls f @ [Seek pos]\<rparr>)"

definition Image_open :: "(int \<times> int) fileop" where
  "Image_open f =
     (fst (image_open f), f\<lparr>cursor := snd (image_open f), calls := calls f @ [Open]\<rparr>)"

definition verify :: "unit fileop" where
  "verify f =
     (fst (image_verify f), f\<lparr>cursor := snd (image_verify f), calls := calls f @ [Verify]\<rparr>)"

text \<open>The statements of \<open>validate_image_file\<close> from the first \<open>file.seek(0)\<close> on.\<close>

definition inspect :: "(bool \<times> string) fileop" where
  "inspect =
     and_then (seek 0) (\<lambda>_.
     and_then Image_open (\<lambda>img.
     and_then verify (\<lambda>_.
     and_then (seek 0) (\<lambda>_.
     and_then Image_open (\<lambda>(width, height).
     and_then (seek 0) (\<lambda>_.
     return
       (if width < 100 \<or> height < 100 then (False, ''Image too small.'')
        else if width > 4000 \<or> height > 4000 then (False, ''Image too large.'')
        else (True, ''Valid image''))))))))"

text \<open>
  \<open>CivicValidator.validate_image_file\<close>: the outcome, and the upload as the call leaves
  it. \<open>None\<close> is the Python \<open>None\<close>.
\<close>

definition validate_image_file :: "upload option \<Rightarrow> (bool \<times> string) \<times> upload option" where
  "validate_image_file file =
     (case file of
        None \<Rightarrow> ((False, ''No file provided''), None)
      | Some f \<Rightarrow>
          if \<not> file_truthy f then ((False, ''No file provided''), Some f)
          else if \<not> allowed_file (filename f) then ((False, ''Invalid file type.''), Some f)
          else (case inspect f of
                  (Inr outcome, f') \<Rightarrow> (outcome, Some f')
                | (Inl e, f') \<Rightarrow> ((False, ''Invalid image file: '' @ e), Some f')))"

section \<open>The caption request\<close>

text \<open>
  The Python values a captioning reply, or a literal in its text, can be. The pairs of
  a \<open>PDict\<close> are its items in their order. A float is \<open>m * 2 ^ e\<close>.
\<close>

datatype pyval =
    PNone
  | PBool bool
  | PInt int
  | PFloat int int
  | PStr string
  | PBytes string
  | PList "pyval list"
  | PTuple "pyval list"
  | PSet "pyval list"
  | PDict "(pyval \<times> pyval) list"

text \<open>\<open>bool(v)\<close>\<close>

fun py_bool :: "pyval \<Rightarrow> bool" where
  "py_bool PNone = False"
| "py_bool (PBool b) = b"
| "py_bool (PInt i) = (i \<noteq> 0)"
| "py_bool (PFloat m e) = (m \<noteq> 0)"
| "py_bool (PStr s) = (s \<noteq> [])"
| "py_bool (PBytes s) = (s \<noteq> [])"
| "py_bool (PList xs) = (xs \<noteq> [])"
| "py_bool (PTuple xs) = (xs \<noteq> [])"
| "py_bool (PSet xs) = (xs \<noteq> [])"
| "py_bool (PDict items) = (items \<noteq> [])"

text \<open>
  Two functions of the Python library are taken as they are: \<open>repr\<close> on floats, bytes
  and containers, and \<open>ast.literal_eval\<close> outside the texts that \<open>one_pair_dict\<close> reads.
\<close>

record pylib =
  lib_repr :: "pyval \<Rightarrow> exn + string"
  lib_literal_eval :: "string \<Rightarrow> exn + pyval"

text \<open>\<open>str(v)\<close>\<close>

definition py_str :: "pylib \<Rightarrow> pyval \<Rightarrow> exn + string" where
  "py_str lib v =
     (case v of
        PStr s \<Rightarrow> Inr s
      | PNone \<Rightarrow> Inr ''None''
      | PBool b \<Rightarrow> Inr (if b then ''True'' else ''False'')
      | PInt i \<Rightarrow> Inr (if i < 0 then CHR ''-'' # decimal (nat (- i)) else decimal (nat i))
      | _ \<Rightarrow> lib_repr lib v)"

text \<open>
  \<open>ast.literal_eval\<close> on the texts \<open>{'key': value}\<close>, where the key is a single-quoted
  string of printable ASCII characters other than the quote and the backslash, and the
  value is such a string or \<open>None\<close>, \<open>True\<close> or \<open>False\<close>: the result is the dict of that
  one item. \<open>sq s\<close> is the text of the single-quoted literal of \<open>s\<close>.
\<close>

definition plain_char :: "char \<Rightarrow> bool" where
  "plain_char c =
     (let n = (of_char c :: nat) in 32 \<le> n \<and> n \<le> 126 \<and> n \<noteq> 39 \<and> n \<noteq> 92)"

definition sq :: "string \<Rightarrow> string" where
  "sq s = CHR 0x27 # s @ [CHR 0x27]"

definition quoted :: "string \<Rightarrow> (string \<times> string) option" where
  "quoted s =
     (case s of
        [] \<Rightarrow> None
      | q # r \<Rightarrow>
          (let body = takeWhile (\<lambda>c. c \<noteq> CHR 0x27) r;
               rest = dropWhile (\<lambda>c. c \<noteq> CHR 0x27) r
           in if q = CHR 0x27 \<and> rest \<noteq> [] \<and> list_all plain_char body
              then Some (body, tl rest) else None))"

definition atom :: "string \<Rightarrow> pyval option" where
  "atom s =
     (if s = ''None'' then Some PNone
      else if s = ''True'' then Some (PBool True)
      else if s = ''False'' then Some (PBool False)
      else (case quoted s of
              Some (body, []) \<Rightarrow> Some (PStr body)
            | _ \<Rightarrow> None))"

definition one_pair_dict :: "string \<Rightarrow> pyval option" where
  "one_pair_dict s =
     (if startswith s ''{'' \<and> endswith s ''}''
      then (case quoted (tl s) of
              None \<Rightarrow> None
            | Some (key, r) \<Rightarrow>
                if startswith r '': ''
                then (case atom (butlast (drop 2 r)) of
                        None \<Rightarrow> None
                      | Some v \<Rightarrow> Some (PDict [(PStr key, v)]))
                else None)
      else None)"

definition literal_eval :: "pylib \<Rightarrow> string \<Rightarrow> exn + pyval" where
  "literal_eval lib s =
     (case one_pair_dict s of
        Some v \<Rightarrow> Inr v
      | None \<Rightarrow> lib_literal_eval lib s)"

text \<open>
  \<open>CivicValidator._extract_caption\<close>. \<open>first_text\<close> is the first \<open>if\<close>/\<open>else\<close>, which makes
  a \<open>str\<close> of the reply; \<open>unwrap_mapping\<close> is the second \<open>if\<close> with its inner \<open>try\<close>, whose
  bare \<open>except\<close> also catches the \<open>IndexError\<close> of an empty dict.
\<close>

definition first_text :: "pylib \<Rightarrow> pyval \<Rightarrow> exn + string" where
  "first_text lib result =
     (case result of
        PList (x # xs) \<Rightarrow> if py_bool x then py_str lib x else Inr ''No caption generated''
      | PTuple (x # xs) \<Rightarrow> if py_bool x then py_str lib x else Inr ''No caption generated''
      | _ \<Rightarrow> if py_bool result then py_str lib result else Inr ''No caption generated'')"

definition first_value :: "pyval \<Rightarrow> exn + pyval option" where
  "first_value caption_dict =
     (case caption_dict of
        PDict items \<Rightarrow>
          bind_exn (py_index (map snd items) 0) (\<lambda>v. Inr (Some v))
      | _ \<Rightarrow> Inr None)"

definition unwrap_mapping :: "pylib \<Rightarrow> string \<Rightarrow> pyval" where
  "unwrap_mapping lib caption =
     (if startswith caption ''{'' \<and> endswith caption ''}''
      then (case bind_exn (literal_eval lib caption) first_value of
              Inr (Some v) \<Rightarrow> v
            | Inr None \<Rightarrow> PStr caption
            | Inl e \<Rightarrow> PStr caption)
      else PStr caption)"

definition extract_caption :: "pylib \<Rightarrow> pyval \<Rightarrow> pyval" where
  "extract_caption lib result =
     (case first_text lib result of
        Inr caption \<Rightarrow> unwrap_mapping lib caption
      | Inl e \<Rightarrow> PStr ''Caption extraction failed'')"

text \<open>
  \<open>CivicValidator.get_florence_caption\<close>. The client is absent (\<open>None\<close>) or gives, for an
  image path, what \<open>predict\<close> returns or raises; \<open>exists\<close> is \<open>os.path.exists\<close>. The
  messages printed to the console are not modelled.
\<close>

definition get_florence_caption ::
  "pylib \<Rightarrow> (string \<Rightarrow> exn + pyval) option \<Rightarrow> (string \<Rightarrow> bool) \<Rightarrow> string \<Rightarrow> pyval" where
  "get_florence_caption lib florence_client exists image_path =
     (case florence_client of
        None \<Rightarrow> PStr ''Caption generation unavailable''
      | Some predict \<Rightarrow>
          if \<not> exists image_path then PStr ''Image file not found''
          else (case predict image_path of
                  Inr result \<Rightarrow> extract_caption lib result
                | Inl (Exn cls msg) \<Rightarrow> PStr (''Caption generation failed: '' @ msg)))"

text \<open>\<open>isinstance(v, dict)\<close>\<close>

definition isinstance_dict :: "pyval \<Rightarrow> bool" where
  "isinstance_dict v = (case v of PDict items \<Rightarrow> True | _ \<Rightarrow> False)"

text \<open>
  A library for concrete replies: its \<open>literal_eval\<close> raises \<open>ValueError\<close>, as
  \<open>ast.literal_eval\<close> does on the text \<open>{oops}\<close>.
\<close>

definition sample_lib :: pylib where
  "sample_lib = \<lparr>lib_repr = (\<lambda>v. Inl (Exn ''ValueError'' ''repr'')),
            lib_literal_eval = (\<lambda>s. Inl (Exn ''ValueError'' ''malformed node or string''))\<rparr>"

section \<open>The statements of the specification\<close>

text \<open>
  A \<open>ScoreCode\<close>: exactly three characters, all of them digits, that read as an integer
  from 0 to 100.
\<close>

definition score_code :: "string \<Rightarrow> bool" where
  "score_code s =
     (length s = 3 \<and> list_all is_digit s \<and> 0 \<le> int_of_digits s \<and> int_of_digits s \<le> 100)"

text \<open>
  The vocabulary of the strict parse: the lines of the reply, a line that contains
  \<open>score\<close> in any case, a line that holds a digit, and the first run of digits of a line.
\<close>

definition reply_lines :: "string \<Rightarrow> string list" where
  "reply_lines text = split (CHR 0x0A) (strip text)"

definition mentions_score :: "string \<Rightarrow> bool" where
  "mentions_score line = contains ''score'' (lower line)"

definition has_digit :: "string \<Rightarrow> bool" where
  "has_digit line = list_ex is_digit line"

definition first_digit_run :: "string \<Rightarrow> string" where
  "first_digit_run line = takeWhile is_digit (dropWhile (\<lambda>c. \<not> is_digit c) line)"

text \<open>
  Clamp to 0..100 and pad with zeros to three digits: the value of a run of digits
  as a score code.
\<close>

definition clamp_pad :: "string \<Rightarrow> string" where
  "clamp_pad number = format_03d (max 0 (min 100 (int_of_digits number)))"

text \<open>
  The parser in the words of the specification: the first pass looks at the first
  line that contains \<open>score\<close> and returns at once; the second pass runs only if no line
  contains \<open>score\<close>; without digits the result is \<open>000\<close>. Where the first line with
  \<open>score\<close> holds no digit these words leave nothing to return but \<open>000\<close>.
\<close>

definition four_step_parser :: "string \<Rightarrow> string" where
  "four_step_parser text =
     (case find mentions_score (reply_lines text) of
        Some line \<Rightarrow> if has_digit line then clamp_pad (first_digit_run line) else ''000''
      | None \<Rightarrow>
          (case find has_digit (reply_lines text) of
             Some line \<Rightarrow> clamp_pad (first_digit_run line)
           | None \<Rightarrow> ''000''))"

text \<open>
  The line that decides: the first line that contains \<open>score\<close> and a digit, or else the
  first line with a digit. The parser with these two passes, and the replies whose
  deciding run of digits is within the cap of \<open>int\<close>.
\<close>

definition deciding_line :: "string \<Rightarrow> string option" where
  "deciding_line text =
     (case find (\<lambda>line. mentions_score line \<and> has_digit line) (reply_lines text) of
        Some line \<Rightarrow> Some line
      | None \<Rightarrow> find has_digit (reply_lines text))"

definition two_pass_parser :: "string \<Rightarrow> string" where
  "two_pass_parser text =
     (case find (\<lambda>line. mentions_score line \<and> has_digit line) (reply_lines text) of
        Some line \<Rightarrow> clamp_pad (first_digit_run line)
      | None \<Rightarrow>
          (case find has_digit (reply_lines text) of
             Some line \<Rightarrow> clamp_pad (first_digit_run line)
           | None \<Rightarrow> ''000''))"

definition within_cap :: "string \<Rightarrow> bool" where
  "within_cap text =
     (case deciding_line text of
        None \<Rightarrow> True
      | Some line \<Rightarrow> length (first_digit_run line) \<le> int_max_str_digits)"

text \<open>
  The rules of the image gate in the words of the specification, where an absent
  upload is \<open>None\<close>. The extension rule: the file name, in lower case, ends in a dot and
  one of the allowed extensions. The integrity check: the content opens as an image
  and passes \<open>verify\<close>.
\<close>

definition has_allowed_extension :: "string option \<Rightarrow> bool" where
  "has_allowed_extension fname =
     (case fname of
        None \<Rightarrow> False
      | Some name \<Rightarrow>
          list_ex (\<lambda>ext. endswith (lower name) (CHR ''.'' # ext))
            [''png'', ''jpg'', ''jpeg'', ''gif'', ''webp''])"

definition integrity_check :: "upload \<Rightarrow> string + int \<times> int" where
  "integrity_check f =
     (case fst (image_open f) of
        Inl e \<Rightarrow> Inl e
      | Inr dims \<Rightarrow> (case fst (image_verify f) of Inl e \<Rightarrow> Inl e | Inr u \<Rightarrow> Inr dims))"

definition image_gate_rules :: "upload option \<Rightarrow> bool \<times> string" where
  "image_gate_rules file =
     (case file of
        None \<Rightarrow> (False, ''No file provided'')
      | Some f \<Rightarrow>
          if \<not> has_allowed_extension (filename f) then (False, ''Invalid file type.'')
          else (case integrity_check f of
                  Inl e \<Rightarrow> (False, ''Invalid image file: '' @ e)
                | Inr (width, height) \<Rightarrow>
                    if width < 100 \<or> height < 100 then (False, ''Image too small.'')
                    else if width > 4000 \<or> height > 4000 then (False, ''Image too large.'')
                    else (True, ''Valid image'')))"

text \<open>
  What \<open>if not file\<close> takes for an absent upload: \<open>None\<close>, and an upload object that
  tests false.
\<close>

definition tests_false :: "upload option \<Rightarrow> bool" where
  "tests_false file = (case file of None \<Rightarrow> True | Some f \<Rightarrow> \<not> file_truthy f)"

section \<open>Properties of the string operations\<close>

lemma digit_runs_run:
  "run \<noteq> [] \<Longrightarrow>
   digit_runs run s = (run @ takeWhile is_digit s) # digit_runs [] (dropWhile is_digit s)"
  by (induction s arbitrary: run) auto

lemma findall_digits_unfold:
  "findall_digits s =
     (if has_digit s
      then first_digit_run s # findall_digits (dropWhile is_digit (dropWhile (\<lambda>c. \<not> is_digit c) s))
      else [])"
  unfolding findall_digits_def has_digit_def first_digit_run_def
  by (induction s) (auto simp: digit_runs_run)

lemma findall_digits_empty: "findall_digits s = [] \<longleftrightarrow> \<not> has_digit s"
  using findall_digits_unfold [of s] by (auto split: if_splits)

lemma contains_iff: "contains sub s \<longleftrightarrow> (\<exists>pre post. s = pre @ sub @ post)"
proof (induction s)
  case Nil
  show ?case by auto
next
  case (Cons c cs)
  show ?case
  proof
    assume "contains sub (c # cs)"
    then consider "startswith (c # cs) sub" | "contains sub cs" by auto
    then show "\<exists>pre post. c # cs = pre @ sub @ post"
    proof cases
      case 1
      then have "c # cs = [] @ sub @ drop (length sub) (c # cs)"
        unfolding startswith_def by (metis append_Nil append_take_drop_id)
      then show ?thesis by blast
    next
      case 2
      with Cons obtain pre post where "cs = pre @ sub @ post" by blast
      then have "c # cs = (c # pre) @ sub @ post" by simp
      then show ?thesis by blast
    qed
  next
    assume "\<exists>pre post. c # cs = pre @ sub @ post"
    then obtain pre post where eq: "c # cs = pre @ sub @ post" by blast
    show "contains sub (c # cs)"
    proof (cases pre)
      case Nil
      with eq have "startswith (c # cs) sub" by (simp add: startswith_def)
      then show ?thesis by simp
    next
      case (Cons p ps)
      with eq have "cs = ps @ sub @ post" by simp
      with Cons.IH show ?thesis by auto
    qed
  qed
qed

lemma is_digit_digit_char: "d < 10 \<Longrightarrow> is_digit (digit_char d)"
  by (simp add: is_digit_def digit_char_def)

lemma digit_value_digit_char: "d < 10 \<Longrightarrow> digit_value (digit_char d) = int d"
  by (simp add: digit_value_def digit_char_def)

lemma is_digit_zero: "is_digit (CHR ''0'')"
  by (simp add: is_digit_def)

lemma digit_value_zero: "digit_value (CHR ''0'') = 0"
  by (simp add: digit_value_def)

lemma decimal_one_digit: "n < 10 \<Longrightarrow> decimal n = [digit_char n]"
  by (simp add: decimal.simps)

lemma decimal_two_digits:
  "10 \<le> n \<Longrightarrow> n < 100 \<Longrightarrow> decimal n = [digit_char (n div 10), digit_char (n mod 10)]"
  by (subst decimal.simps) (simp add: decimal_one_digit)

lemma decimal_hundred: "decimal 100 = [digit_char 1, digit_char 0, digit_char 0]"
  by (subst decimal.simps) (simp add: decimal_two_digits)

lemma format_03d_cases:
  assumes "0 \<le> v" "v \<le> 100"
  shows "\<exists>a b c. a < 10 \<and> b < 10 \<and> c < 10 \<and> v = int (100 * a + 10 * b + c) \<and>
           format_03d v = [digit_char a, digit_char b, digit_char c]"
proof -
  define n where "n = nat v"
  have v: "v = int n" and n: "n \<le> 100" using assms by (simp_all add: n_def)
  have z: "CHR ''0'' = digit_char 0" unfolding digit_char_def by code_simp
  consider "n < 10" | "10 \<le> n" "n < 100" | "n = 100" using n by linarith
  then show ?thesis
  proof cases
    case 1
    then have "format_03d v = [digit_char 0, digit_char 0, digit_char n]"
      using assms by (simp add: format_03d_def zfill_def decimal_one_digit v z numeral_eq_Suc)
    with 1 v show ?thesis by (intro exI [of _ 0] exI [of _ n]) simp
  next
    case 2
    then have "format_03d v = [digit_char 0, digit_char (n div 10), digit_char (n mod 10)]"
      using assms by (simp add: format_03d_def zfill_def decimal_two_digits v z)
    moreover have "n div 10 < 10" using 2 by simp
    ultimately show ?thesis using v
      by (intro exI [of _ 0] exI [of _ "n div 10"] exI [of _ "n mod 10"]) simp
  next
    case 3
    then have "format_03d v = [digit_char 1, digit_char 0, digit_char 0]"
      by (simp add: format_03d_def zfill_def decimal_hundred v)
    with 3 v show ?thesis by (intro exI [of _ 1] exI [of _ 0]) simp
  qed
qed

lemma format_03d_score_code:
  assumes "0 \<le> v" "v \<le> 100"
  shows "score_code (format_03d v)" "int_of_digits (format_03d v) = v"
proof -
  obtain a b c where d: "a < 10" "b < 10" "c < 10"
    and v: "v = int (100 * a + 10 * b + c)"
    and f: "format_03d v = [digit_char a, digit_char b, digit_char c]"
    using format_03d_cases [OF assms] by blast
  have "int_of_digits [digit_char a, digit_char b, digit_char c] = int (100 * a + 10 * b + c)"
    using d by (simp add: int_of_digits_def digit_value_digit_char)
  then show i: "int_of_digits (format_03d v) = v"
    using f v by simp
  show "score_code (format_03d v)"
    unfolding score_code_def i using assms d by (simp add: f is_digit_digit_char)
qed

lemma clamp_pad_score_code: "score_code (clamp_pad number)"
  unfolding clamp_pad_def by (rule format_03d_score_code) simp_all

lemma score_code_000: "score_code ''000''"
  by (simp add: score_code_def is_digit_def int_of_digits_def digit_value_def)

lemma score_of_run_cases:
  "score_of_run number =
     (if length number \<le> int_max_str_digits then Inr (clamp_pad number)
      else Inl (Exn ''ValueError'' ''Exceeds the limit (4300 digits) for integer string conversion''))"
  by (simp add: score_of_run_def py_int_def bind_exn_def clamp_pad_def)

lemma score_of_run_score_code: "score_of_run number = Inr s \<Longrightarrow> score_code s"
  by (auto simp: score_of_run_cases clamp_pad_score_code split: if_splits)

lemma score_loop_find:
  "score_loop lines =
     (case find (\<lambda>l. mentions_score l \<and> has_digit l) lines of
        None \<Rightarrow> Inr None
      | Some l \<Rightarrow> bind_exn (score_of_run (first_digit_run l)) (\<lambda>s. Inr (Some s)))"
proof (induction lines)
  case Nil
  show ?case by simp
next
  case (Cons line lines)
  show ?case
  proof (cases "has_digit line")
    case True
    then obtain rest where "findall_digits line = first_digit_run line # rest"
      using findall_digits_unfold [of line] by simp
    with True Cons show ?thesis by (simp add: mentions_score_def)
  next
    case False
    then have "findall_digits line = []" by (simp add: findall_digits_empty)
    with False Cons show ?thesis by (simp add: mentions_score_def)
  qed
qed

lemma number_loop_find:
  "number_loop lines =
     (case find has_digit lines of
        None \<Rightarrow> Inr None
      | Some l \<Rightarrow> bind_exn (score_of_run (first_digit_run l)) (\<lambda>s. Inr (Some s)))"
proof (induction lines)
  case Nil
  show ?case by simp
next
  case (Cons line lines)
  show ?case
  proof (cases "has_digit line")
    case True
    then obtain rest where "findall_digits line = first_digit_run line # rest"
      using findall_digits_unfold [of line] by simp
    with True Cons show ?thesis by simp
  next
    case False
    then have "findall_digits line = []" by (simp add: findall_digits_empty)
    with False Cons show ?thesis by simp
  qed
qed

lemma strict3score_deciding_line:
  "strict3score text =
     (case deciding_line text of
        None \<Rightarrow> Inr ''000''
      | Some line \<Rightarrow> score_of_run (first_digit_run line))"
  unfolding strict3score_def deciding_line_def reply_lines_def Let_def
  by (simp add: score_loop_find number_loop_find bind_exn_def split: option.splits sum.splits)

lemma strict3score_within_cap:
  "within_cap text \<Longrightarrow>
   strict3score text =
     Inr (case deciding_line text of None \<Rightarrow> ''000'' | Some line \<Rightarrow> clamp_pad (first_digit_run line))"
  by (cases "deciding_line text")
     (simp_all add: strict3score_deciding_line within_cap_def score_of_run_cases)

lemma strict3score_score_code: "strict3score text = Inr s \<Longrightarrow> score_code s"
  by (auto simp: strict3score_deciding_line score_code_000 split: option.splits
      dest: score_of_run_score_code)

lemma get_civic_score_strict3_cases:
  "fst (get_civic_score_strict3 svc key caption description sent) = ''000'' \<or>
   (\<exists>text. strict3score text =
      Inr (fst (get_civic_score_strict3 svc key caption description sent)))"
  unfolding get_civic_score_strict3_def post_def score_attempt_def bind_exn_def
    call_strict3score_def Let_def
  by (auto split: sum.splits option.splits json.splits if_splits)

text \<open>Replies with a run of 4301 digits, on which \<open>int\<close> raises.\<close>

lemma split_no_sep: "sep \<notin> set s \<Longrightarrow> split sep s = [s]"
  by (induction s) auto

lemma split_at_sep: "sep \<notin> set a \<Longrightarrow> split sep (a @ sep # b) = a # split sep b"
  by (induction a) auto

lemma strip_id:
  assumes "s \<noteq> []" "\<not> is_space (hd s)" "\<not> is_space (last s)"
  shows "strip s = s"
proof -
  from assms(1,2) have a: "dropWhile is_space s = s"
    by (cases s) simp_all
  from assms(1) obtain xs x where s: "s = xs @ [x]"
    by (cases s rule: rev_cases) auto
  with assms(3) have "dropWhile is_space (rev s) = rev s"
    by simp
  with a show ?thesis by (simp add: strip_def)
qed

lemma lower_append: "lower (a @ b) = lower a @ lower b"
  by (simp add: lower_def)

lemma mentions_score_prefix:
  "lower label = ''score '' \<Longrightarrow> mentions_score (label @ rest)"
  unfolding mentions_score_def contains_iff lower_append
  by (intro exI [of _ "[]"] exI [of _ "'' '' @ lower rest"]) simp

lemma nines_run:
  assumes "list_all (\<lambda>c. \<not> is_digit c) label" "0 < n"
  shows "first_digit_run (label @ replicate n (CHR ''9'')) = replicate n (CHR ''9'')"
    and "has_digit (label @ replicate n (CHR ''9''))"
proof -
  have nine: "is_digit (CHR ''9'')" by (simp add: is_digit_def)
  obtain m where n: "n = Suc m" using assms(2) by (cases n) auto
  have "dropWhile (\<lambda>c. \<not> is_digit c) (label @ replicate n (CHR ''9'')) = replicate n (CHR ''9'')"
    using assms(1) nine by (simp add: dropWhile_append2 list_all_iff n)
  moreover have "takeWhile is_digit (replicate n (CHR ''9'')) = replicate n (CHR ''9'')"
    using nine by (simp add: takeWhile_replicate)
  ultimately show "first_digit_run (label @ replicate n (CHR ''9'')) = replicate n (CHR ''9'')"
    by (simp add: first_digit_run_def)
  show "has_digit (label @ replicate n (CHR ''9''))"
    using nine by (simp add: has_digit_def n)
qed

lemma long_run_raises:
  "score_of_run (replicate 4301 (CHR ''9'')) =
     Inl (Exn ''ValueError'' ''Exceeds the limit (4300 digits) for integer string conversion'')"
  by (simp add: score_of_run_cases int_max_str_digits_def)

lemma one_line_decides:
  "reply_lines text = [line] \<Longrightarrow> mentions_score line \<Longrightarrow> has_digit line \<Longrightarrow>
   deciding_line text = Some line"
  by (simp add: deciding_line_def)

lemma second_line_decides:
  "reply_lines text = [label, line] \<Longrightarrow> \<not> has_digit label \<Longrightarrow> mentions_score line \<Longrightarrow>
   has_digit line \<Longrightarrow> deciding_line text = Some line"
  by (simp add: deciding_line_def)

lemma labelled_long_run:
  "strict3score (''Score: '' @ replicate 4301 (CHR ''9'')) =
     Inl (Exn ''ValueError'' ''Exceeds the limit (4300 digits) for integer string conversion'')"
proof -
  define line where "line = ''Score: '' @ replicate 4301 (CHR ''9'')"
  have "\<not> is_space (CHR ''S'')" "\<not> is_space (CHR ''9'')"
    by (simp_all add: is_space_def)
  then have "strip line = line"
    unfolding line_def by (intro strip_id) simp_all
  moreover have "CHR 0x0A \<notin> set line"
    by (simp add: line_def)
  ultimately have lines: "reply_lines line = [line]"
    by (simp add: reply_lines_def split_no_sep)
  have l: "lower ''Score: '' = ''score: ''" by code_simp
  have m: "mentions_score line"
    unfolding line_def mentions_score_def contains_iff lower_append l
    by (intro exI [of _ "[]"] exI [of _ "'': '' @ lower (replicate 4301 (CHR ''9''))"]) simp
  have nd: "list_all (\<lambda>c. \<not> is_digit c) ''Score: ''" by (simp add: is_digit_def)
  have r: "first_digit_run line = replicate 4301 (CHR ''9'')" and h: "has_digit line"
    unfolding line_def using nines_run [OF nd, of 4301] by simp_all
  have "deciding_line line = Some line"
    using lines m h by (rule one_line_decides)
  then have "strict3score line = score_of_run (replicate 4301 (CHR ''9''))"
    by (simp add: strict3score_deciding_line r)
  then show ?thesis
    unfolding line_def long_run_raises .
qed

lemma later_long_run_lines:
  "reply_lines (''score'' @ CHR 0x0A # ''SCORE '' @ replicate 4301 (CHR ''9'')) =
     [''score'', ''SCORE '' @ replicate 4301 (CHR ''9'')]"
proof -
  define line where "line = ''SCORE '' @ replicate 4301 (CHR ''9'')"
  define t where "t = ''score'' @ CHR 0x0A # line"
  have "\<not> is_space (CHR ''s'')" "\<not> is_space (CHR ''9'')"
    by (simp_all add: is_space_def)
  then have "strip t = t"
    unfolding t_def line_def by (intro strip_id) simp_all
  moreover have "split (CHR 0x0A) t = ''score'' # split (CHR 0x0A) line"
    unfolding t_def by (rule split_at_sep) simp
  moreover have "CHR 0x0A \<notin> set line"
    by (simp add: line_def)
  ultimately have "reply_lines t = [''score'', line]"
    by (simp add: reply_lines_def split_no_sep)
  then show ?thesis unfolding t_def line_def .
qed

lemma later_long_run:
  "strict3score (''score'' @ CHR 0x0A # ''SCORE '' @ replicate 4301 (CHR ''9'')) =
     Inl (Exn ''ValueError'' ''Exceeds the limit (4300 digits) for integer string conversion'')"
proof -
  define line where "line = ''SCORE '' @ replicate 4301 (CHR ''9'')"
  define t where "t = ''score'' @ CHR 0x0A # line"
  have lines: "reply_lines t = [''score'', line]"
    unfolding t_def line_def by (rule later_long_run_lines)
  have l: "lower ''SCORE '' = ''score ''" by code_simp
  have m: "mentions_score line" unfolding line_def using l by (rule mentions_score_prefix)
  have nd: "list_all (\<lambda>c. \<not> is_digit c) ''SCORE ''" by (simp add: is_digit_def)
  have r: "first_digit_run line = replicate 4301 (CHR ''9'')" and h: "has_digit line"
    unfolding line_def using nines_run [OF nd, of 4301] by simp_all
  have n: "\<not> has_digit ''score''" by code_simp
  have "deciding_line t = Some line"
    using lines n m h by (rule second_line_decides)
  then have "strict3score t = score_of_run (replicate 4301 (CHR ''9''))"
    by (simp add: strict3score_deciding_line r)
  then show ?thesis
    unfolding t_def line_def long_run_raises .
qed

section \<open>The strict parse: which line decides\<close>

lemma find_append_first:
  "list_all (\<lambda>l. \<not> P l) before \<Longrightarrow> P line \<Longrightarrow> find P (before @ line # after) = Some line"
  by (induction before) auto

lemma two_pass_deciding:
  "two_pass_parser text =
     (case deciding_line text of None \<Rightarrow> ''000'' | Some line \<Rightarrow> clamp_pad (first_digit_run line))"
  by (simp add: two_pass_parser_def deciding_line_def split: option.splits)

lemma two_pass_four_step:
  assumes "case find mentions_score (reply_lines text) of Some line \<Rightarrow> has_digit line | None \<Rightarrow> True"
  shows "two_pass_parser text = four_step_parser text"
proof (cases "find mentions_score (reply_lines text)")
  case None
  then have "find (\<lambda>line. mentions_score line \<and> has_digit line) (reply_lines text) = None"
    by (auto simp: find_None_iff)
  with None show ?thesis by (simp add: two_pass_parser_def four_step_parser_def)
next
  case (Some line)
  with assms have d: "has_digit line" by simp
  from Some obtain i where i: "i < length (reply_lines text)" "mentions_score (reply_lines text ! i)"
    "line = reply_lines text ! i" "\<forall>j<i. \<not> mentions_score (reply_lines text ! j)"
    by (auto simp: find_Some_iff)
  then have "find (\<lambda>line. mentions_score line \<and> has_digit line) (reply_lines text) = Some line"
    using d by (auto simp: find_Some_iff)
  with Some d show ?thesis by (simp add: two_pass_parser_def four_step_parser_def)
qed

text \<open>
  Claim C2, as the code has it. For every reply text whose deciding run of digits has
  at most 4300 digits, \<open>_strict3score\<close> returns what the two-pass parser gives: the first
  line that contains \<open>score\<close> (in any case) and a digit gives its first run of digits,
  clamped to 0..100 and padded to three digits; if there is no such line, the first
  line with a digit does; without digits the result is \<open>000\<close>. On these texts it is the
  four-step parser of the specification whenever the first line that contains \<open>score\<close>
  holds a digit, or no line contains \<open>score\<close>. A labelled line wins over the numbers of
  other lines, and \<open>Score: 150\<close> gives \<open>100\<close>.
\<close>

theorem strict3score_parser:
  "(within_cap text \<longrightarrow> strict3score text = Inr (two_pass_parser text)) \<and>
   (within_cap text \<and>
    (case find mentions_score (reply_lines text) of
       Some line \<Rightarrow> has_digit line
     | None \<Rightarrow> True) \<longrightarrow> strict3score text = Inr (four_step_parser text)) \<and>
   strict3score ''Score: 150'' = Inr ''100'' \<and>
   strict3score (''12'' @ [CHR 0x0A] @ ''Score: 85'' @ [CHR 0x0A] @ ''99'') = Inr ''085''"
proof (intro conjI impI)
  show "strict3score text = Inr (two_pass_parser text)" if "within_cap text"
    using that by (simp add: strict3score_within_cap two_pass_deciding)
  show "strict3score text = Inr (four_step_parser text)"
    if "within_cap text \<and>
        (case find mentions_score (reply_lines text) of Some line \<Rightarrow> has_digit line | None \<Rightarrow> True)"
    using that two_pass_four_step [of "text"]
    by (simp add: strict3score_within_cap two_pass_deciding)
  show "strict3score ''Score: 150'' = Inr ''100''"
    by code_simp
  show "strict3score (''12'' @ [CHR 0x0A] @ ''Score: 85'' @ [CHR 0x0A] @ ''99'') = Inr ''085''"
    by code_simp
qed

text \<open>Both hypotheses hold of the reply \<open>Score: 150\<close>.\<close>

theorem strict3score_parser_witness:
  "within_cap ''Score: 150'' \<and>
   (case find mentions_score (reply_lines ''Score: 150'') of
      Some line \<Rightarrow> has_digit line
    | None \<Rightarrow> True) \<and>
   strict3score ''Score: 150'' = Inr (two_pass_parser ''Score: 150'') \<and>
   strict3score ''Score: 150'' = Inr (four_step_parser ''Score: 150'') \<and>
   four_step_parser ''Score: 150'' = ''100''"
proof -
  have c: "within_cap ''Score: 150''"
    by code_simp
  have h: "case find mentions_score (reply_lines ''Score: 150'') of
      Some line \<Rightarrow> has_digit line
    | None \<Rightarrow> True"
    by code_simp
  have "strict3score ''Score: 150'' = Inr (two_pass_parser ''Score: 150'')"
    and "strict3score ''Score: 150'' = Inr (four_step_parser ''Score: 150'')"
    using strict3score_parser [of "''Score: 150''"] c h by blast+
  moreover have "four_step_parser ''Score: 150'' = ''100''"
    by code_simp
  ultimately show ?thesis using c h by blast
qed

text \<open>
  Claim C2 as it is stated fails on the reply whose lines are \<open>score\<close> and \<open>42\<close>: a line
  contains \<open>score\<close>, so the four-step parser never runs its second pass and gives \<open>000\<close>,
  and the code returns \<open>042\<close>. It fails as well on the reply \<open>Score:\<close> followed by 4301
  nines, where \<open>int\<close> raises and the code returns nothing.
\<close>

theorem strict3score_four_step_counterexample:
  "strict3score (''score'' @ [CHR 0x0A] @ ''42'') = Inr ''042'' \<and>
   four_step_parser (''score'' @ [CHR 0x0A] @ ''42'') = ''000'' \<and>
   strict3score (''Score: '' @ replicate 4301 (CHR ''9'')) =
     Inl (Exn ''ValueError'' ''Exceeds the limit (4300 digits) for integer string conversion'')"
proof (intro conjI)
  show "strict3score (''score'' @ [CHR 0x0A] @ ''42'') = Inr ''042''"
    by code_simp
  show "four_step_parser (''score'' @ [CHR 0x0A] @ ''42'') = ''000''"
    by code_simp
  show "strict3score (''Score: '' @ replicate 4301 (CHR ''9'')) =
     Inl (Exn ''ValueError'' ''Exceeds the limit (4300 digits) for integer string conversion'')"
    by (rule labelled_long_run)
qed

text \<open>
  Claim C9, as the code has it. A line that contains \<open>score\<close> and no digit does not end
  the first pass: the first line that contains \<open>score\<close> and a digit decides, whatever
  lines come before it, and the first pass returns its first run of digits, clamped
  and padded, when that run has at most 4300 digits. When no line contains both, the
  second pass decides, by the first line with a digit, under the same bound; that
  line can stand before the line that contains \<open>score\<close>, as in the reply whose lines
  are \<open>7\<close> and \<open>score\<close>.
\<close>

theorem strict3score_first_pass_continues:
  "(reply_lines text = before @ line # after \<and>
    list_all (\<lambda>l. \<not> (mentions_score l \<and> has_digit l)) before \<and>
    mentions_score line \<and> has_digit line \<and>
    length (first_digit_run line) \<le> int_max_str_digits
      \<longrightarrow> strict3score text = Inr (clamp_pad (first_digit_run line))) \<and>
   (list_all (\<lambda>l. \<not> (mentions_score l \<and> has_digit l)) (reply_lines text) \<and>
    (case find has_digit (reply_lines text) of
       Some line \<Rightarrow> length (first_digit_run line) \<le> int_max_str_digits
     | None \<Rightarrow> True)
      \<longrightarrow> strict3score text =
            Inr (case find has_digit (reply_lines text) of
                   Some line \<Rightarrow> clamp_pad (first_digit_run line)
                 | None \<Rightarrow> ''000'')) \<and>
   strict3score (''7'' @ [CHR 0x0A] @ ''score'') = Inr ''007''"
proof (intro conjI impI)
  assume a: "reply_lines text = before @ line # after \<and>
    list_all (\<lambda>l. \<not> (mentions_score l \<and> has_digit l)) before \<and>
    mentions_score line \<and> has_digit line \<and>
    length (first_digit_run line) \<le> int_max_str_digits"
  then have "find (\<lambda>l. mentions_score l \<and> has_digit l) (before @ line # after) = Some line"
    by (intro find_append_first) simp_all
  with a have "deciding_line text = Some line"
    by (simp add: deciding_line_def)
  with a show "strict3score text = Inr (clamp_pad (first_digit_run line))"
    by (simp add: strict3score_deciding_line score_of_run_cases)
next
  assume a: "list_all (\<lambda>l. \<not> (mentions_score l \<and> has_digit l)) (reply_lines text) \<and>
    (case find has_digit (reply_lines text) of
       Some line \<Rightarrow> length (first_digit_run line) \<le> int_max_str_digits
     | None \<Rightarrow> True)"
  then have "find (\<lambda>l. mentions_score l \<and> has_digit l) (reply_lines text) = None"
    by (auto simp: find_None_iff list_all_iff)
  then have d: "deciding_line text = find has_digit (reply_lines text)"
    by (simp add: deciding_line_def)
  show "strict3score text =
            Inr (case find has_digit (reply_lines text) of
                   Some line \<Rightarrow> clamp_pad (first_digit_run line)
                 | None \<Rightarrow> ''000'')"
  proof (cases "find has_digit (reply_lines text)")
    case None
    with d show ?thesis by (simp add: strict3score_deciding_line)
  next
    case (Some line)
    with a d show ?thesis by (simp add: strict3score_deciding_line score_of_run_cases)
  qed
next
  show "strict3score (''7'' @ [CHR 0x0A] @ ''score'') = Inr ''007''"
    by code_simp
qed

text \<open>
  Both hypotheses at concrete replies: the lines \<open>score\<close>, \<open>note 5\<close>, \<open>SCORE 7\<close>, and the
  lines \<open>note 5\<close>, \<open>score\<close>.
\<close>

theorem strict3score_first_pass_continues_witness:
  "strict3score (''score'' @ [CHR 0x0A] @ ''note 5'' @ [CHR 0x0A] @ ''SCORE 7'') = Inr ''007'' \<and>
   strict3score (''note 5'' @ [CHR 0x0A] @ ''score'') = Inr ''005''"
proof
  let ?t = "''score'' @ [CHR 0x0A] @ ''note 5'' @ [CHR 0x0A] @ ''SCORE 7''"
  have "reply_lines ?t = [''score'', ''note 5''] @ ''SCORE 7'' # []"
    by code_simp
  moreover have "list_all (\<lambda>l. \<not> (mentions_score l \<and> has_digit l)) [''score'', ''note 5'']"
    by code_simp
  moreover have "mentions_score ''SCORE 7''" "has_digit ''SCORE 7''"
    by code_simp+
  moreover have "length (first_digit_run ''SCORE 7'') \<le> int_max_str_digits"
    by code_simp
  ultimately have "strict3score ?t = Inr (clamp_pad (first_digit_run ''SCORE 7''))"
    using strict3score_first_pass_continues [of ?t "[''score'', ''note 5'']" "''SCORE 7''" "[]"]
    by blast
  moreover have "clamp_pad (first_digit_run ''SCORE 7'') = ''007''"
    by code_simp
  ultimately show "strict3score ?t = Inr ''007''" by simp
next
  let ?t = "''note 5'' @ [CHR 0x0A] @ ''score''"
  have "list_all (\<lambda>l. \<not> (mentions_score l \<and> has_digit l)) (reply_lines ?t)"
    by code_simp
  moreover have "case find has_digit (reply_lines ?t) of
       Some line \<Rightarrow> length (first_digit_run line) \<le> int_max_str_digits
     | None \<Rightarrow> True"
    by code_simp
  ultimately have "strict3score ?t =
            Inr (case find has_digit (reply_lines ?t) of
               Some line \<Rightarrow> clamp_pad (first_digit_run line)
             | None \<Rightarrow> ''000'')"
    using strict3score_first_pass_continues [of ?t "[]" "[]" "[]"] by blast
  moreover have "(case find has_digit (reply_lines ?t) of
               Some line \<Rightarrow> clamp_pad (first_digit_run line)
             | None \<Rightarrow> ''000'') = ''005''"
    by code_simp
  ultimately show "strict3score ?t = Inr ''005''" by simp
qed

text \<open>
  Claim C9 as it is stated fails on the reply whose lines are \<open>score\<close> and \<open>SCORE\<close>
  followed by 4301 nines: the first pass goes on to the second line, and there \<open>int\<close>
  raises \<open>ValueError\<close> instead of the run being returned.
\<close>

theorem strict3score_long_run_counterexample:
  "reply_lines (''score'' @ CHR 0x0A # ''SCORE '' @ replicate 4301 (CHR ''9'')) =
     [''score'', ''SCORE '' @ replicate 4301 (CHR ''9'')] \<and>
   strict3score (''score'' @ CHR 0x0A # ''SCORE '' @ replicate 4301 (CHR ''9'')) =
     Inl (Exn ''ValueError'' ''Exceeds the limit (4300 digits) for integer string conversion'')"
  using later_long_run_lines later_long_run by (rule conjI)

section \<open>The scoring request: the score code and the fallback\<close>

text \<open>
  Claim C1. Whatever the caption, the description, the API key and the scoring service
  are (an exception of the transport, any status, any body), the score returned by
  \<open>get_civic_score_strict3\<close> has exactly three characters, all of them digits, and reads as
  an integer from 0 to 100.
\<close>

theorem get_civic_score_strict3_score_code:
  "length (fst (get_civic_score_strict3 svc key caption description sent)) = 3 \<and>
   list_all is_digit (fst (get_civic_score_strict3 svc key caption description sent)) \<and>
   0 \<le> int_of_digits (fst (get_civic_score_strict3 svc key caption description sent)) \<and>
   int_of_digits (fst (get_civic_score_strict3 svc key caption description sent)) \<le> 100"
proof -
  have "score_code (fst (get_civic_score_strict3 svc key caption description sent))"
    using get_civic_score_strict3_cases [of svc key caption description sent]
    by (auto simp: score_code_000 dest: strict3score_score_code)
  then show ?thesis by (simp add: score_code_def)
qed

text \<open>
  Claim C5. When the request raises, or the response has a status other than 200, the
  score is \<open>000\<close> and exactly one request was sent.
\<close>

theorem scoring_failure_gives_000:
  "svc (length sent) \<lparr>api_key = key, image_caption = caption, user_description = description\<rparr> = Inl e \<or>
   (\<exists>r. svc (length sent) \<lparr>api_key = key, image_caption = caption, user_description = description\<rparr> = Inr r \<and>
        status_code r \<noteq> 200)
   \<Longrightarrow> get_civic_score_strict3 svc key caption description sent =
       (''000'', sent @ [\<lparr>api_key = key, image_caption = caption, user_description = description\<rparr>])"
  unfolding get_civic_score_strict3_def post_def score_attempt_def bind_exn_def Let_def
  by auto

text \<open>A refused connection, and a response with status 503.\<close>

theorem scoring_failure_gives_000_witness:
  "get_civic_score_strict3 (\<lambda>n req. Inl (Exn ''ConnectionError'' ''refused'')) None ''a'' ''b'' [] =
     (''000'', [\<lparr>api_key = None, image_caption = ''a'', user_description = ''b''\<rparr>]) \<and>
   get_civic_score_strict3
     (\<lambda>n req. Inr \<lparr>status_code = 503, json_body = Inr (JString ''Score: 85'')\<rparr>) None ''a'' ''b'' [] =
     (''000'', [\<lparr>api_key = None, image_caption = ''a'', user_description = ''b''\<rparr>])"
proof
  show "get_civic_score_strict3 (\<lambda>n req. Inl (Exn ''ConnectionError'' ''refused'')) None ''a'' ''b'' [] =
     (''000'', [\<lparr>api_key = None, image_caption = ''a'', user_description = ''b''\<rparr>])"
    using scoring_failure_gives_000
      [of "\<lambda>n req. Inl (Exn ''ConnectionError'' ''refused'')" "[]" None "''a''" "''b''"
          "Exn ''ConnectionError'' ''refused''"]
    by simp
  show "get_civic_score_strict3
     (\<lambda>n req. Inr \<lparr>status_code = 503, json_body = Inr (JString ''Score: 85'')\<rparr>) None ''a'' ''b'' [] =
     (''000'', [\<lparr>api_key = None, image_caption = ''a'', user_description = ''b''\<rparr>])"
    using scoring_failure_gives_000
      [of "\<lambda>n req. Inr \<lparr>status_code = 503, json_body = Inr (JString ''Score: 85'')\<rparr>" "[]"
          None "''a''" "''b''"]
    by simp
qed

section \<open>The image gate: the extension, the rules and the cursor\<close>

lemma lower_char_dot: "lower_char c = CHR ''.'' \<longleftrightarrow> c = CHR ''.''"
proof
  assume a: "lower_char c = CHR ''.''"
  show "c = CHR ''.''"
  proof (rule ccontr)
    assume n: "c \<noteq> CHR ''.''"
    with a have r: "(65 \<le> (of_char c :: nat) \<and> (of_char c :: nat) \<le> 90) \<or>
        (192 \<le> (of_char c :: nat) \<and> (of_char c :: nat) \<le> 222 \<and> (of_char c :: nat) \<noteq> 215)"
      and e: "char_of ((of_char c :: nat) + 32) = CHR ''.''"
      by (auto simp: lower_char_def Let_def split: if_splits)
    from e have "(of_char (char_of ((of_char c :: nat) + 32) :: char) :: nat) = of_char (CHR ''.'')"
      by simp
    then have m: "((of_char c :: nat) + 32) mod 256 = 46" by simp
    from r have "(of_char c :: nat) + 32 < 256" by auto
    then have "((of_char c :: nat) + 32) mod 256 = of_char c + 32" by (rule mod_less)
    with m have "(of_char c :: nat) = 14" by simp
    with r show False by simp
  qed
next
  assume "c = CHR ''.''"
  then show "lower_char c = CHR ''.''" by (simp add: lower_char_def)
qed

lemma lower_dot_free: "CHR ''.'' \<in> set (lower s) \<longleftrightarrow> CHR ''.'' \<in> set s"
proof (induction s)
  case Nil
  show ?case by (simp add: lower_def)
next
  case (Cons c cs)
  then show ?case using lower_char_dot [of c] by (auto simp: lower_def)
qed

lemma takeWhile_until:
  "sep \<notin> set xs \<Longrightarrow> takeWhile (\<lambda>c. c \<noteq> sep) (xs @ sep # ys) = xs"
  by (induction xs) auto

lemma dropWhile_until:
  "sep \<notin> set xs \<Longrightarrow> dropWhile (\<lambda>c. c \<noteq> sep) (xs @ sep # ys) = sep # ys"
  by (induction xs) auto

lemma rsplit1_last:
  assumes "sep \<notin> set ext"
  shows "rsplit1 sep (stem @ sep # ext) = [stem, ext]"
proof -
  have r: "rev (stem @ sep # ext) = rev ext @ sep # rev stem" by simp
  have n: "sep \<notin> set (rev ext)" using assms by simp
  have m: "sep \<in> set (stem @ sep # ext)" by simp
  show ?thesis
    unfolding rsplit1_def r takeWhile_until [OF n] dropWhile_until [OF n] using m by simp
qed

lemma allowed_file_last_dot:
  "CHR ''.'' \<notin> set ext \<Longrightarrow>
   allowed_file (Some (stem @ CHR ''.'' # ext)) = (lower ext \<in> ALLOWED_EXTENSIONS)"
  by (simp add: allowed_file_def rsplit1_last)

lemma endswith_append: "endswith (xs @ ys) ys"
  by (simp add: endswith_def)

lemma endswith_decompose: "endswith s p \<Longrightarrow> \<exists>pre. s = pre @ p"
  unfolding endswith_def by (metis append_take_drop_id)

lemma allowed_file_extension: "allowed_file fname = has_allowed_extension fname"
proof (cases fname)
  case None
  then show ?thesis by (simp add: allowed_file_def has_allowed_extension_def)
next
  case (Some name)
  let ?exts = "[''png'', ''jpg'', ''jpeg'', ''gif'', ''webp'']"
  have exts: "set ?exts = ALLOWED_EXTENSIONS" by (simp add: ALLOWED_EXTENSIONS_def)
  have nodot: "CHR ''.'' \<notin> set ext" if "ext \<in> ALLOWED_EXTENSIONS" for ext
    using that by (auto simp: ALLOWED_EXTENSIONS_def)
  show ?thesis
  proof
    assume a: "allowed_file fname"
    with Some have d: "CHR ''.'' \<in> set name"
      by (auto simp: allowed_file_def split: if_splits)
    then obtain stem ext where n: "name = stem @ CHR ''.'' # ext" "CHR ''.'' \<notin> set ext"
      by (meson split_list_last)
    with a Some have l: "lower ext \<in> ALLOWED_EXTENSIONS"
      by (simp add: allowed_file_last_dot)
    have "lower name = lower stem @ CHR ''.'' # lower ext"
      using n by (simp add: lower_def lower_char_dot)
    then have "endswith (lower name) (CHR ''.'' # lower ext)"
      by (simp add: endswith_append)
    with l exts have "list_ex (\<lambda>ext. endswith (lower name) (CHR ''.'' # ext)) ?exts"
      unfolding list_ex_iff by blast
    with Some show "has_allowed_extension fname"
      by (simp add: has_allowed_extension_def)
  next
    assume "has_allowed_extension fname"
    with Some exts obtain ext where e: "ext \<in> ALLOWED_EXTENSIONS"
      "endswith (lower name) (CHR ''.'' # ext)"
      unfolding has_allowed_extension_def list_ex_iff by auto
    then obtain pre where p: "lower name = pre @ CHR ''.'' # ext"
      using endswith_decompose by blast
    then obtain stem rest where s: "name = stem @ rest" "lower stem = pre"
      "lower rest = CHR ''.'' # ext"
      unfolding lower_def by (auto simp: map_eq_append_conv)
    then obtain c tail where r: "rest = c # tail" "lower_char c = CHR ''.''" "lower tail = ext"
      unfolding lower_def by (auto simp: map_eq_Cons_conv)
    then have c: "c = CHR ''.''" by (simp add: lower_char_dot)
    have "CHR ''.'' \<notin> set tail"
      using nodot [OF e(1)] r(3) lower_dot_free by blast
    with s r c e Some show "allowed_file fname"
      by (simp add: allowed_file_last_dot)
  qed
qed

lemma inspect_eq:
  "inspect f =
     (case fst (image_open f) of
        Inl e \<Rightarrow> (Inl e, f\<lparr>cursor := snd (image_open f), calls := calls f @ [Seek 0, Open]\<rparr>)
      | Inr dims \<Rightarrow>
          (case fst (image_verify f) of
             Inl e \<Rightarrow>
               (Inl e, f\<lparr>cursor := snd (image_verify f), calls := calls f @ [Seek 0, Open, Verify]\<rparr>)
           | Inr u \<Rightarrow>
               (Inr (if fst dims < 100 \<or> snd dims < 100 then (False, ''Image too small.'')
                     else if fst dims > 4000 \<or> snd dims > 4000 then (False, ''Image too large.'')
                     else (True, ''Valid image'')),
                f\<lparr>cursor := 0,
                  calls := calls f @ [Seek 0, Open, Verify, Seek 0, Open, Seek 0]\<rparr>)))"
  unfolding inspect_def and_then_def seek_def Image_open_def verify_def return_def
  by (auto split: sum.splits prod.splits)

lemma validate_image_file_outcome:
  "fst (validate_image_file file) =
     (if tests_false file then (False, ''No file provided'') else image_gate_rules file)"
proof (cases "file")
  case None
  then show ?thesis by (simp add: validate_image_file_def tests_false_def)
next
  case (Some f)
  then show ?thesis
    unfolding validate_image_file_def image_gate_rules_def integrity_check_def tests_false_def
    by (auto simp: allowed_file_extension inspect_eq split: sum.splits prod.splits)
qed

text \<open>
  Claim C3, as the code has it. The outcome of \<open>validate_image_file\<close> is given by the
  rules, in this order: an absent upload gives \<open>No file provided\<close>, where \<open>None\<close> and an
  upload object that tests false count as absent; a file name without a dot, or with
  an extension outside the allowed set in any case, gives \<open>Invalid file type.\<close>; content
  that fails the integrity check gives \<open>Invalid image file:\<close> followed by the error; a
  width or height below 100 gives \<open>Image too small.\<close>; a width or height above 4000
  gives \<open>Image too large.\<close>; otherwise \<open>Valid image\<close>. A rejected file name leaves the
  upload as it was: the cursor is not moved and no call is made on the file.
\<close>

theorem validate_image_file_rules:
  "fst (validate_image_file file) =
     (if tests_false file then (False, ''No file provided'') else image_gate_rules file) \<and>
   (\<not> has_allowed_extension (filename f) \<longrightarrow> snd (validate_image_file (Some f)) = Some f)"
  by (simp add: validate_image_file_outcome)
     (simp add: validate_image_file_def allowed_file_extension)

text \<open>An upload named \<open>notes.txt\<close> is rejected for its type and comes back unchanged.\<close>

theorem validate_image_file_rules_witness:
  "\<not> has_allowed_extension (Some ''notes.txt'') \<and>
   validate_image_file
     (Some \<lparr>file_truthy = True, filename = Some ''notes.txt'', cursor = 7, calls = [],
            image_open = (Inr (640, 480), 32), image_verify = (Inr (), 900)\<rparr>) =
     ((False, ''Invalid file type.''),
      Some \<lparr>file_truthy = True, filename = Some ''notes.txt'', cursor = 7, calls = [],
            image_open = (Inr (640, 480), 32), image_verify = (Inr (), 900)\<rparr>)"
proof -
  let ?f = "\<lparr>file_truthy = True, filename = Some ''notes.txt'', cursor = 7, calls = [],
            image_open = (Inr (640, 480), 32), image_verify = (Inr (), 900)\<rparr>"
  have h: "\<not> has_allowed_extension (Some ''notes.txt'')"
    by code_simp
  have r: "image_gate_rules (Some ?f) = (False, ''Invalid file type.'')"
    using h by (simp add: image_gate_rules_def)
  have t: "\<not> tests_false (Some ?f)"
    by (simp add: tests_false_def)
  have "fst (validate_image_file (Some ?f)) =
      (if tests_false (Some ?f) then (False, ''No file provided'') else image_gate_rules (Some ?f))"
    and "snd (validate_image_file (Some ?f)) = Some ?f"
    using validate_image_file_rules [of "Some ?f" ?f] h by simp_all
  with r h t show ?thesis by (simp add: prod_eq_iff)
qed

text \<open>
  Claim C3 as it is stated fails on an upload object that tests false and has an empty
  file name: the rules as worded go on to the extension rule and give
  \<open>Invalid file type.\<close>, the code takes the upload for absent.
\<close>

theorem validate_image_file_rules_counterexample:
  "fst (validate_image_file
     (Some \<lparr>file_truthy = False, filename = Some [], cursor = 0, calls = [],
            image_open = (Inl ''cannot identify image file'', 0), image_verify = (Inr (), 0)\<rparr>)) =
     (False, ''No file provided'') \<and>
   image_gate_rules
     (Some \<lparr>file_truthy = False, filename = Some [], cursor = 0, calls = [],
            image_open = (Inl ''cannot identify image file'', 0), image_verify = (Inr (), 0)\<rparr>) =
     (False, ''Invalid file type.'')"
proof
  show "fst (validate_image_file
     (Some \<lparr>file_truthy = False, filename = Some [], cursor = 0, calls = [],
            image_open = (Inl ''cannot identify image file'', 0), image_verify = (Inr (), 0)\<rparr>)) =
     (False, ''No file provided'')"
    by (simp add: validate_image_file_def)
  have "\<not> has_allowed_extension (Some [])"
    by code_simp
  then show "image_gate_rules
     (Some \<lparr>file_truthy = False, filename = Some [], cursor = 0, calls = [],
            image_open = (Inl ''cannot identify image file'', 0), image_verify = (Inr (), 0)\<rparr>) =
     (False, ''Invalid file type.'')"
    by (simp add: image_gate_rules_def)
qed

text \<open>
  Claim C8, as the code has it. On an upload that passes the extension check the calls
  are, in this order, \<open>seek(0)\<close>, \<open>Image.open\<close>, \<open>verify\<close>, \<open>seek(0)\<close>, \<open>Image.open\<close>,
  \<open>seek(0)\<close>: the cursor is set back to 0 after \<open>verify\<close> and after the size is read,
  and it is at 0 on every return on which decoding succeeded (valid, too small, too
  large). When \<open>Image.open\<close> or \<open>verify\<close> raises, no call follows and the cursor stays
  where the image library left it.
\<close>

theorem validate_image_file_cursor:
  "file_truthy f \<and> allowed_file (filename f) \<longrightarrow>
     (integrity_check f = Inr dims \<longrightarrow>
        snd (validate_image_file (Some f)) =
          Some (f\<lparr>cursor := 0, calls := calls f @ [Seek 0, Open, Verify, Seek 0, Open, Seek 0]\<rparr>)) \<and>
     (fst (image_open f) = Inl e \<longrightarrow>
        snd (validate_image_file (Some f)) =
          Some (f\<lparr>cursor := snd (image_open f), calls := calls f @ [Seek 0, Open]\<rparr>)) \<and>
     (fst (image_open f) = Inr dims \<and> fst (image_verify f) = Inl e \<longrightarrow>
        snd (validate_image_file (Some f)) =
          Some (f\<lparr>cursor := snd (image_verify f), calls := calls f @ [Seek 0, Open, Verify]\<rparr>))"
  unfolding validate_image_file_def integrity_check_def
  by (auto simp: inspect_eq split: sum.splits)

text \<open>
  An image of 50 by 50 is rejected after all six calls, with the cursor at 0; a file
  whose \<open>verify\<close> raises after reading 212 bytes is rejected after three calls, with the
  cursor at 212.
\<close>

theorem validate_image_file_cursor_witness:
  "snd (validate_image_file
        (Some \<lparr>file_truthy = True, filename = Some ''tiny.png'', cursor = 7, calls = [],
               image_open = (Inr (50, 50), 32), image_verify = (Inr (), 900)\<rparr>)) =
     Some \<lparr>file_truthy = True, filename = Some ''tiny.png'', cursor = 0,
            calls = [Seek 0, Open, Verify, Seek 0, Open, Seek 0],
            image_open = (Inr (50, 50), 32), image_verify = (Inr (), 900)\<rparr> \<and>
   snd (validate_image_file
        (Some \<lparr>file_truthy = True, filename = Some ''torn.png'', cursor = 0, calls = [],
               image_open = (Inr (640, 480), 32), image_verify = (Inl ''broken data stream'', 212)\<rparr>)) =
     Some \<lparr>file_truthy = True, filename = Some ''torn.png'', cursor = 212,
            calls = [Seek 0, Open, Verify],
            image_open = (Inr (640, 480), 32), image_verify = (Inl ''broken data stream'', 212)\<rparr>"
proof
  let ?f = "\<lparr>file_truthy = True, filename = Some ''tiny.png'', cursor = 7, calls = [],
               image_open = (Inr (50, 50), 32), image_verify = (Inr (), 900)\<rparr>"
  have "allowed_file (Some ''tiny.png'')" by code_simp
  moreover have "integrity_check ?f = Inr (50, 50)" by (simp add: integrity_check_def)
  ultimately show "snd (validate_image_file (Some ?f)) =
     Some \<lparr>file_truthy = True, filename = Some ''tiny.png'', cursor = 0,
            calls = [Seek 0, Open, Verify, Seek 0, Open, Seek 0],
            image_open = (Inr (50, 50), 32), image_verify = (Inr (), 900)\<rparr>"
    using validate_image_file_cursor [of ?f "(50, 50)"] by simp
next
  let ?g = "\<lparr>file_truthy = True, filename = Some ''torn.png'', cursor = 0, calls = [],
               image_open = (Inr (640, 480), 32), image_verify = (Inl ''broken data stream'', 212)\<rparr>"
  have "allowed_file (Some ''torn.png'')" by code_simp
  then show "snd (validate_image_file (Some ?g)) =
     Some \<lparr>file_truthy = True, filename = Some ''torn.png'', cursor = 212,
            calls = [Seek 0, Open, Verify],
            image_open = (Inr (640, 480), 32), image_verify = (Inl ''broken data stream'', 212)\<rparr>"
    using validate_image_file_cursor [of ?g "(640, 480)" "''broken data stream''"] by simp
qed

text \<open>
  Claim C8 as it is stated fails on an upload named \<open>photo.png\<close> whose content
  \<open>Image.open\<close> cannot identify after reading 16 bytes: the call returns the invalid
  outcome from the \<open>except\<close> branch, which has no \<open>seek\<close>, and the cursor is at 16.
\<close>

theorem validate_image_file_cursor_counterexample:
  "validate_image_file
     (Some \<lparr>file_truthy = True, filename = Some ''photo.png'', cursor = 0, calls = [],
            image_open = (Inl ''cannot identify image file'', 16), image_verify = (Inr (), 16)\<rparr>) =
     ((False, ''Invalid image file: cannot identify image file''),
      Some \<lparr>file_truthy = True, filename = Some ''photo.png'', cursor = 16, calls = [Seek 0, Open],
            image_open = (Inl ''cannot identify image file'', 16), image_verify = (Inr (), 16)\<rparr>)"
proof -
  have "allowed_file (Some ''photo.png'')" by code_simp
  then show ?thesis by (simp add: validate_image_file_def inspect_eq)
qed

text \<open>
  Claim C10, as the code has it. \<open>allowed_file\<close> judges the part of the file name after
  its last dot, in lower case: \<open>photo.png.txt\<close> is rejected, \<open>photo.txt.PNG\<close> is accepted,
  the empty name and \<open>None\<close> are rejected. So an upload object that tests true and has
  an empty name, or none, gets \<open>Invalid file type.\<close>; an upload object that tests false
  gets \<open>No file provided\<close> whatever its name, and that is what a \<open>FileStorage\<close> with an
  empty file name is.
\<close>

theorem allowed_file_last_extension:
  "(CHR ''.'' \<notin> set ext \<longrightarrow>
      allowed_file (Some (stem @ CHR ''.'' # ext)) = (lower ext \<in> ALLOWED_EXTENSIONS)) \<and>
   \<not> allowed_file (Some ''photo.png.txt'') \<and>
   allowed_file (Some ''photo.txt.PNG'') \<and>
   \<not> allowed_file (Some '''') \<and>
   \<not> allowed_file None \<and>
   (file_truthy f \<and> (filename f = Some '''' \<or> filename f = None) \<longrightarrow>
      validate_image_file (Some f) = ((False, ''Invalid file type.''), Some f)) \<and>
   (\<not> file_truthy f \<longrightarrow> validate_image_file (Some f) = ((False, ''No file provided''), Some f))"
proof (intro conjI impI)
  show "allowed_file (Some (stem @ CHR ''.'' # ext)) = (lower ext \<in> ALLOWED_EXTENSIONS)"
    if "CHR ''.'' \<notin> set ext"
    using that by (rule allowed_file_last_dot)
  show "\<not> allowed_file (Some ''photo.png.txt'')" by code_simp
  show "allowed_file (Some ''photo.txt.PNG'')" by code_simp
  show "\<not> allowed_file (Some '''')" by (simp add: allowed_file_def)
  show "\<not> allowed_file None" by (simp add: allowed_file_def)
  show "validate_image_file (Some f) = ((False, ''Invalid file type.''), Some f)"
    if "file_truthy f \<and> (filename f = Some '''' \<or> filename f = None)"
    using that by (auto simp: validate_image_file_def allowed_file_def)
  show "validate_image_file (Some f) = ((False, ''No file provided''), Some f)"
    if "\<not> file_truthy f"
    using that by (simp add: validate_image_file_def)
qed

text \<open>
  The name \<open>a.b.JpEg\<close> is allowed, a true upload with an empty name is rejected for its
  type, and a false upload named \<open>a.png\<close> counts as absent.
\<close>

theorem allowed_file_last_extension_witness:
  "allowed_file (Some (''a.b'' @ CHR ''.'' # ''JpEg'')) \<and>
   validate_image_file
     (Some \<lparr>file_truthy = True, filename = Some '''', cursor = 0, calls = [],
            image_open = (Inr (640, 480), 32), image_verify = (Inr (), 900)\<rparr>) =
     ((False, ''Invalid file type.''),
      Some \<lparr>file_truthy = True, filename = Some '''', cursor = 0, calls = [],
            image_open = (Inr (640, 480), 32), image_verify = (Inr (), 900)\<rparr>) \<and>
   validate_image_file
     (Some \<lparr>file_truthy = False, filename = Some ''a.png'', cursor = 0, calls = [],
            image_open = (Inr (640, 480), 32), image_verify = (Inr (), 900)\<rparr>) =
     ((False, ''No file provided''),
      Some \<lparr>file_truthy = False, filename = Some ''a.png'', cursor = 0, calls = [],
            image_open = (Inr (640, 480), 32), image_verify = (Inr (), 900)\<rparr>)"
proof (intro conjI)
  let ?f = "\<lparr>file_truthy = True, filename = Some '''', cursor = 0, calls = [],
            image_open = (Inr (640, 480), 32), image_verify = (Inr (), 900)\<rparr>"
  let ?g = "\<lparr>file_truthy = False, filename = Some ''a.png'', cursor = 0, calls = [],
            image_open = (Inr (640, 480), 32), image_verify = (Inr (), 900)\<rparr>"
  have d: "CHR ''.'' \<notin> set ''JpEg''" by simp
  have l: "lower ''JpEg'' \<in> ALLOWED_EXTENSIONS" by code_simp
  show "allowed_file (Some (''a.b'' @ CHR ''.'' # ''JpEg''))"
    using allowed_file_last_extension [of "''JpEg''" "''a.b''" ?f] d l by blast
  show "validate_image_file (Some ?f) = ((False, ''Invalid file type.''), Some ?f)"
    using allowed_file_last_extension [of "''JpEg''" "''a.b''" ?f] by simp
  show "validate_image_file (Some ?g) = ((False, ''No file provided''), Some ?g)"
    using allowed_file_last_extension [of "''JpEg''" "''a.b''" ?g] by simp
qed

text \<open>
  Claim C10 as it is stated fails on an upload with an empty file name that tests false:
  it is treated as an absent upload.
\<close>

theorem empty_filename_counterexample:
  "validate_image_file
     (Some \<lparr>file_truthy = False, filename = Some '''', cursor = 0, calls = [],
            image_open = (Inl ''cannot identify image file'', 0), image_verify = (Inr (), 0)\<rparr>) =
     ((False, ''No file provided''),
      Some \<lparr>file_truthy = False, filename = Some '''', cursor = 0, calls = [],
            image_open = (Inl ''cannot identify image file'', 0), image_verify = (Inr (), 0)\<rparr>)"
  by (simp add: validate_image_file_def)

section \<open>The caption: the serialized mapping\<close>

lemma unwrap_mapping_first_value:
  "startswith caption ''{'' \<Longrightarrow> endswith caption ''}'' \<Longrightarrow>
   literal_eval lib caption = Inr (PDict ((k, v) # items)) \<Longrightarrow>
   unwrap_mapping lib caption = v"
  by (simp add: unwrap_mapping_def bind_exn_def first_value_def py_index_def)

lemma unwrap_mapping_unchanged:
  "literal_eval lib caption = Inl e \<or> literal_eval lib caption = Inr (PDict []) \<or>
   (literal_eval lib caption = Inr other \<and> \<not> isinstance_dict other) \<Longrightarrow>
   unwrap_mapping lib caption = PStr caption"
  by (auto simp: unwrap_mapping_def bind_exn_def first_value_def py_index_def isinstance_dict_def
      split: pyval.splits)

lemma unwrap_mapping_other:
  "\<not> (startswith caption ''{'' \<and> endswith caption ''}'') \<Longrightarrow>
   unwrap_mapping lib caption = PStr caption"
  by (auto simp: unwrap_mapping_def)

lemma literal_eval_pothole:
  "literal_eval lib (''{'' @ sq ''caption'' @ '': '' @ sq ''Pothole on street'' @ ''}'') =
     Inr (PDict [(PStr ''caption'', PStr ''Pothole on street'')])"
proof -
  have "one_pair_dict (''{'' @ sq ''caption'' @ '': '' @ sq ''Pothole on street'' @ ''}'') =
     Some (PDict [(PStr ''caption'', PStr ''Pothole on street'')])"
    by code_simp
  then show ?thesis by (simp add: literal_eval_def)
qed

lemma literal_eval_empty_value:
  "literal_eval lib (''{'' @ sq ''caption'' @ '': '' @ sq [] @ ''}'') =
     Inr (PDict [(PStr ''caption'', PStr [])])"
proof -
  have "one_pair_dict (''{'' @ sq ''caption'' @ '': '' @ sq [] @ ''}'') =
     Some (PDict [(PStr ''caption'', PStr [])])"
    by code_simp
  then show ?thesis by (simp add: literal_eval_def)
qed

lemma literal_eval_none_value:
  "literal_eval lib (''{'' @ sq ''caption'' @ '': None}'') =
     Inr (PDict [(PStr ''caption'', PNone)])"
proof -
  have "one_pair_dict (''{'' @ sq ''caption'' @ '': None}'') =
     Some (PDict [(PStr ''caption'', PNone)])"
    by code_simp
  then show ?thesis by (simp add: literal_eval_def)
qed

lemma brace_text:
  "startswith (CHR ''{'' # s @ ''}'') ''{''" "endswith (CHR ''{'' # s @ ''}'') ''}''"
  by (simp_all add: startswith_def endswith_def)

text \<open>
  Claim C7. When the text made of the reply starts with \<open>{\<close> and ends with \<open>}\<close> and
  \<open>ast.literal_eval\<close> gives a dict with a first item, \<open>_extract_caption\<close> returns the value
  of that item; when \<open>literal_eval\<close> raises, or gives an empty dict or a value that is
  not a dict, and when the text is not in braces, the text comes back unchanged. The
  reply text \<open>{'caption': 'Pothole on street'}\<close> gives \<open>Pothole on street\<close>.
\<close>

theorem extract_caption_mapping:
  "(first_text lib result = Inr caption \<and> startswith caption ''{'' \<and> endswith caption ''}'' \<and>
    literal_eval lib caption = Inr (PDict ((k, v) # items))
      \<longrightarrow> extract_caption lib result = v) \<and>
   (first_text lib result = Inr caption \<and>
    (literal_eval lib caption = Inl e \<or> literal_eval lib caption = Inr (PDict []) \<or>
     (literal_eval lib caption = Inr other \<and> \<not> isinstance_dict other))
      \<longrightarrow> extract_caption lib result = PStr caption) \<and>
   (first_text lib result = Inr caption \<and> \<not> (startswith caption ''{'' \<and> endswith caption ''}'')
      \<longrightarrow> extract_caption lib result = PStr caption) \<and>
   extract_caption lib (PStr (''{'' @ sq ''caption'' @ '': '' @ sq ''Pothole on street'' @ ''}'')) =
     PStr ''Pothole on street''"
proof (intro conjI impI)
  show "extract_caption lib result = v"
    if "first_text lib result = Inr caption \<and> startswith caption ''{'' \<and> endswith caption ''}'' \<and>
        literal_eval lib caption = Inr (PDict ((k, v) # items))"
    using that by (simp add: extract_caption_def unwrap_mapping_first_value)
  show "extract_caption lib result = PStr caption"
    if "first_text lib result = Inr caption \<and>
        (literal_eval lib caption = Inl e \<or> literal_eval lib caption = Inr (PDict []) \<or>
         (literal_eval lib caption = Inr other \<and> \<not> isinstance_dict other))"
    using that unwrap_mapping_unchanged [of lib caption e other]
    by (simp add: extract_caption_def)
  show "extract_caption lib result = PStr caption"
    if "first_text lib result = Inr caption \<and> \<not> (startswith caption ''{'' \<and> endswith caption ''}'')"
    using that unwrap_mapping_other [of caption lib] by (simp add: extract_caption_def)
  let ?t = "''{'' @ sq ''caption'' @ '': '' @ sq ''Pothole on street'' @ ''}''"
  have "first_text lib (PStr ?t) = Inr ?t"
    by (simp add: first_text_def py_str_def)
  moreover have "unwrap_mapping lib ?t = PStr ''Pothole on street''"
    by (rule unwrap_mapping_first_value [OF _ _ literal_eval_pothole])
       (simp_all add: startswith_def endswith_def sq_def)
  ultimately show "extract_caption lib (PStr ?t) = PStr ''Pothole on street''"
    by (simp add: extract_caption_def)
qed

text \<open>
  The three hypotheses at concrete replies: a tuple that starts with the text of a
  dict, the text \<open>{oops}\<close>, and a list of one plain text.
\<close>

theorem extract_caption_mapping_witness:
  "extract_caption sample_lib
     (PTuple [PStr (''{'' @ sq ''caption'' @ '': '' @ sq ''Pothole on street'' @ ''}''), PNone]) =
     PStr ''Pothole on street'' \<and>
   extract_caption sample_lib (PStr ''{oops}'') = PStr ''{oops}'' \<and>
   extract_caption sample_lib (PList [PStr ''Pothole on street'']) = PStr ''Pothole on street''"
proof (intro conjI)
  let ?t = "''{'' @ sq ''caption'' @ '': '' @ sq ''Pothole on street'' @ ''}''"
  have "first_text sample_lib (PTuple [PStr ?t, PNone]) = Inr ?t"
    by (simp add: first_text_def py_str_def sq_def)
  moreover have "startswith ?t ''{''" "endswith ?t ''}''"
    by (simp_all add: startswith_def endswith_def sq_def)
  ultimately show "extract_caption sample_lib (PTuple [PStr ?t, PNone]) = PStr ''Pothole on street''"
    using extract_caption_mapping
      [of sample_lib "PTuple [PStr ?t, PNone]" ?t "PStr ''caption''" "PStr ''Pothole on street''" "[]"]
      literal_eval_pothole [of sample_lib]
    by blast
next
  have "first_text sample_lib (PStr ''{oops}'') = Inr ''{oops}''"
    by (simp add: first_text_def py_str_def)
  moreover have "one_pair_dict ''{oops}'' = None"
    by code_simp
  then have "literal_eval sample_lib ''{oops}'' = Inl (Exn ''ValueError'' ''malformed node or string'')"
    by (simp add: literal_eval_def sample_lib_def)
  ultimately show "extract_caption sample_lib (PStr ''{oops}'') = PStr ''{oops}''"
    using extract_caption_mapping [of sample_lib "PStr ''{oops}''" "''{oops}''" _ _ _
        "Exn ''ValueError'' ''malformed node or string''"]
    by blast
next
  have "first_text sample_lib (PList [PStr ''Pothole on street'']) = Inr ''Pothole on street''"
    by (simp add: first_text_def py_str_def)
  moreover have "\<not> (startswith ''Pothole on street'' ''{'' \<and> endswith ''Pothole on street'' ''}'')"
    by (simp add: startswith_def)
  ultimately show "extract_caption sample_lib (PList [PStr ''Pothole on street'']) = PStr ''Pothole on street''"
    using extract_caption_mapping [of sample_lib "PList [PStr ''Pothole on street'']" "''Pothole on street''"]
    by blast
qed

text \<open>
  Outside the branch of the dict the caption is a non-empty string: when the text made
  of the reply is not in braces (and \<open>repr\<close> gives no empty text), every path of
  \<open>get_florence_caption\<close> with a client returns a non-empty \<open>str\<close>.
\<close>

lemma decimal_not_empty: "decimal n \<noteq> []"
  by (subst decimal.simps) simp

lemma py_str_not_empty:
  assumes "py_bool v" "py_str lib v = Inr s" "\<forall>w t. lib_repr lib w = Inr t \<longrightarrow> t \<noteq> []"
  shows "s \<noteq> []"
  using assms by (cases v) (auto simp: py_str_def decimal_not_empty split: if_splits)

lemma first_text_not_empty:
  assumes "first_text lib result = Inr caption" "\<forall>w t. lib_repr lib w = Inr t \<longrightarrow> t \<noteq> []"
  shows "caption \<noteq> []"
proof -
  have "caption = ''No caption generated'' \<or> (\<exists>v. py_bool v \<and> py_str lib v = Inr caption)"
    using assms(1) unfolding first_text_def
    by (auto split: pyval.splits list.splits if_splits)
  then show ?thesis using py_str_not_empty assms(2) by blast
qed

lemma get_florence_caption_plain:
  assumes "\<forall>w t. lib_repr lib w = Inr t \<longrightarrow> t \<noteq> []"
    and "\<And>result caption. predict image_path = Inr result \<Longrightarrow> first_text lib result = Inr caption \<Longrightarrow>
           \<not> (startswith caption ''{'' \<and> endswith caption ''}'')"
  shows "\<exists>s. get_florence_caption lib (Some predict) exists image_path = PStr s \<and> s \<noteq> []"
proof (cases "exists image_path")
  case False
  then show ?thesis by (simp add: get_florence_caption_def)
next
  case True
  show ?thesis
  proof (cases "predict image_path")
    case (Inl e)
    with True show ?thesis by (cases e) (simp add: get_florence_caption_def)
  next
    case (Inr result)
    show ?thesis
    proof (cases "first_text lib result")
      case (Inl e)
      with True Inr show ?thesis by (simp add: get_florence_caption_def extract_caption_def)
    next
      case r: (Inr caption)
      then have "caption \<noteq> []" using assms(1) by (rule first_text_not_empty)
      moreover have "unwrap_mapping lib caption = PStr caption"
        using assms(2) [OF Inr r] by (auto simp: unwrap_mapping_def)
      ultimately show ?thesis using True Inr r
        by (simp add: get_florence_caption_def extract_caption_def)
    qed
  qed
qed

text \<open>
  Claim C6 fails in the code. When the reply is the text \<open>{'caption': ''}\<close>, the value of the
  dict replaces the caption as it is, and \<open>get_florence_caption\<close> returns the empty
  string: the placeholder that the other two branches put in place of an empty value
  is not applied to the value taken from the dict.
\<close>

theorem get_florence_caption_empty:
  "get_florence_caption lib
     (Some (\<lambda>path. Inr (PStr (''{'' @ sq ''caption'' @ '': '' @ sq [] @ ''}''))))
     (\<lambda>path. True) ''uploads/pothole.png'' = PStr []"
proof -
  let ?t = "''{'' @ sq ''caption'' @ '': '' @ sq [] @ ''}''"
  have "first_text lib (PStr ?t) = Inr ?t"
    by (simp add: first_text_def py_str_def)
  moreover have "unwrap_mapping lib ?t = PStr []"
    by (rule unwrap_mapping_first_value [OF _ _ literal_eval_empty_value])
       (simp_all add: startswith_def endswith_def sq_def)
  ultimately show ?thesis
    by (simp add: get_florence_caption_def extract_caption_def)
qed

text \<open>
  Claim C4 fails in the code for the same reason. When the reply starts with the text
  \<open>{'caption': None}\<close>, \<open>get_florence_caption\<close> returns \<open>None\<close>, which is not a string: the
  other two branches apply \<open>str\<close>, the branch of the dict does not.
\<close>

theorem get_florence_caption_not_a_string:
  "get_florence_caption lib
     (Some (\<lambda>path. Inr (PTuple [PStr (''{'' @ sq ''caption'' @ '': None}''), PNone])))
     (\<lambda>path. True) ''uploads/pothole.png'' = PNone"
proof -
  let ?t = "''{'' @ sq ''caption'' @ '': None}''"
  have "first_text lib (PTuple [PStr ?t, PNone]) = Inr ?t"
    by (simp add: first_text_def py_str_def sq_def)
  moreover have "unwrap_mapping lib ?t = PNone"
    by (rule unwrap_mapping_first_value [OF _ _ literal_eval_none_value])
       (simp_all add: startswith_def endswith_def sq_def)
  ultimately show ?thesis
    by (simp add: get_florence_caption_def extract_caption_def)
qed

end
